theory Spec2Isabelle
  imports Complex_Main
begin

section \<open>Python values\<close>

text \<open>
  The signature database is whatever \<^verbatim>\<open>json.load\<close> returns, so the model carries the
  Python values a JSON document decodes to. A \<^verbatim>\<open>str\<close> is the list of its characters
  (code points below 256). A \<^verbatim>\<open>dict\<close> is the list of its items in insertion order; the
  keys of a dict are distinct, and lookup takes the item with the key.
\<close>

datatype py_float = Finite rat | PosInf | NegInf | NaN

datatype py_obj =
    PyNone
  | PyBool bool
  | PyInt int
  | PyFloat py_float
  | PyStr string
  | PyList "py_obj list"
  | PyDict "(string \<times> py_obj) list"

datatype py_error = JSONDecodeError | AttributeError | TypeError | DeviceCommandError

text \<open>Truth value testing, as \<^verbatim>\<open>if detect\<close> and \<^verbatim>\<open>detect or ""\<close> use it.\<close>

fun truthy :: "py_obj \<Rightarrow> bool" where
  "truthy PyNone = False"
| "truthy (PyBool b) = b"
| "truthy (PyInt i) = (i \<noteq> 0)"
| "truthy (PyFloat f) = (f \<noteq> Finite 0)"
| "truthy (PyStr s) = (s \<noteq> [])"
| "truthy (PyList xs) = (xs \<noteq> [])"
| "truthy (PyDict kvs) = (kvs \<noteq> [])"

fun is_str :: "py_obj \<Rightarrow> bool" where
  "is_str (PyStr s) = True"
| "is_str _ = False"

definition py_or :: "py_obj \<Rightarrow> py_obj \<Rightarrow> py_obj" where
  "py_or a b = (if truthy a then a else b)"

text \<open>
  \<^verbatim>\<open>SIG_DB.get(pkg)\<close>: on a dict the value of the key, or \<^verbatim>\<open>None\<close>; any other JSON value
  has no attribute \<^verbatim>\<open>get\<close>.
\<close>

fun dict_get :: "py_obj \<Rightarrow> string \<Rightarrow> py_error + py_obj" where
  "dict_get (PyDict kvs) k = Inr (case map_of kvs k of None \<Rightarrow> PyNone | Some v \<Rightarrow> v)"
| "dict_get _ k = Inl AttributeError"

subsection \<open>String methods\<close>

text \<open>\<^verbatim>\<open>str.isspace\<close> on one character, for code points below 256.\<close>

definition isspace :: "char \<Rightarrow> bool" where
  "isspace c = (of_char c \<in> {9, 10, 11, 12, 13, 28, 29, 30, 31, 32, 133, 160 :: nat})"

text \<open>
  \<^verbatim>\<open>str.split()\<close> without arguments: the maximal runs of non-whitespace characters, in
  order. The first argument is the word read so far.
\<close>

fun split_from :: "string \<Rightarrow> string \<Rightarrow> string list" where
  "split_from cur [] = (if cur = [] then [] else [cur])"
| "split_from cur (c # cs) =
     (if isspace c then (if cur = [] then split_from [] cs else cur # split_from [] cs)
      else split_from (cur @ [c]) cs)"

definition str_split :: "string \<Rightarrow> string list" where
  "str_split s = split_from [] s"

definition removeprefix :: "string \<Rightarrow> string \<Rightarrow> string" where
  "removeprefix p s = (if take (length p) s = p then drop (length p) s else s)"

fun str_join :: "string \<Rightarrow> string list \<Rightarrow> string" where
  "str_join sep [] = []"
| "str_join sep [x] = x"
| "str_join sep (x # y # ys) = x @ sep @ str_join sep (y # ys)"

section \<open>Signature database\<close>

text \<open>
  The file at \<^verbatim>\<open>SIG_DB_PATH\<close>: absent, or present together with what opening it and
  \<^verbatim>\<open>json.load\<close> do on its content (raise, or return the decoded value).
\<close>

datatype sig_file = Absent | Present "py_error + py_obj"

fun load_signature_db :: "sig_file \<Rightarrow> py_error + py_obj" where
  "load_signature_db (Present loaded) = loaded"
| "load_signature_db Absent = Inr (PyDict [])"

section \<open>The list control\<close>

text \<open>
  One row of \<^verbatim>\<open>ResultList\<close>: the three columns of \<^verbatim>\<open>COLS\<close>, the background colour if one
  was set, and whether the user has the row selected.
\<close>

record item =
  package_col :: string
  status_col :: string
  detection_col :: string
  background :: "(nat \<times> nat \<times> nat) option"
  selected :: bool

definition DeleteAllItems :: "item list \<Rightarrow> item list" where
  "DeleteAllItems lc = []"

definition GetItemCount :: "item list \<Rightarrow> nat" where
  "GetItemCount lc = length lc"

text \<open>\<^verbatim>\<open>InsertItem(index, label)\<close> puts a new row before position \<open>index\<close> and returns its index.\<close>

definition InsertItem :: "item list \<Rightarrow> nat \<Rightarrow> string \<Rightarrow> nat \<times> item list" where
  "InsertItem lc index label =
     (let i = min index (length lc)
      in (i, take i lc @
             [\<lparr>package_col = label, status_col = [], detection_col = [],
               background = None, selected = False\<rparr>] @ drop i lc))"

text \<open>\<^verbatim>\<open>SetItem(index, column, label)\<close>; a row or column that does not exist is left alone.\<close>

definition SetItem :: "item list \<Rightarrow> nat \<Rightarrow> nat \<Rightarrow> string \<Rightarrow> item list" where
  "SetItem lc index column label =
     (if index < length lc then
        lc[index :=
          (if column = 0 then (lc ! index)\<lparr>package_col := label\<rparr>
           else if column = 1 then (lc ! index)\<lparr>status_col := label\<rparr>
           else if column = 2 then (lc ! index)\<lparr>detection_col := label\<rparr>
           else lc ! index)]
      else lc)"

definition SetItemBackgroundColour :: "item list \<Rightarrow> nat \<Rightarrow> nat \<times> nat \<times> nat \<Rightarrow> item list" where
  "SetItemBackgroundColour lc index colour =
     (if index < length lc then lc[index := (lc ! index)\<lparr>background := Some colour\<rparr>] else lc)"

text \<open>\<^verbatim>\<open>GetNextSelected(item)\<close>: the first selected row after \<open>item\<close>, or \<open>-1\<close>.\<close>

definition GetNextSelected :: "item list \<Rightarrow> int \<Rightarrow> int" where
  "GetNextSelected lc i =
     (case filter (\<lambda>j. i < int j \<and> selected (lc ! j)) [0..<length lc] of
        [] \<Rightarrow> - 1
      | j # _ \<Rightarrow> int j)"

definition GetFirstSelected :: "item list \<Rightarrow> int" where
  "GetFirstSelected lc = GetNextSelected lc (- 1)"

definition GetItemText :: "item list \<Rightarrow> int \<Rightarrow> string" where
  "GetItemText lc i = (if 0 \<le> i \<and> i < int (length lc) then package_col (lc ! nat i) else [])"

section \<open>The dialog and what surrounds it\<close>

text \<open>
  What the module takes from outside \<^verbatim>\<open>spyware_detector.py\<close>, as parameters:
  \<^verbatim>\<open>_\<close> of \<^verbatim>\<open>i18n\<close>, \<^verbatim>\<open>get_phone\<close> and \<^verbatim>\<open>adb\<close> of \<^verbatim>\<open>runtime\<close> (a call of \<^verbatim>\<open>adb\<close> raises or
  returns an object with a \<^verbatim>\<open>stdout\<close> text), the user's answer to a modal \<^verbatim>\<open>wx.MessageBox\<close>,
  and the module global \<^verbatim>\<open>SIG_DB\<close> bound when the module was imported.
\<close>

datatype phone = Phone string

record adb_result =
  stdout :: string

datatype answer = YES | NO

record env =
  gettext :: "string \<Rightarrow> string"
  get_phone :: "phone option"
  adb :: "string list \<Rightarrow> py_error + adb_result"
  MessageBox :: "string \<Rightarrow> string \<Rightarrow> answer"
  SIG_DB :: py_obj

text \<open>
  The state the handlers work on: the rows of \<^verbatim>\<open>self.listctrl\<close>, the \<^verbatim>\<open>adb\<close> calls issued
  so far (their argument lists, oldest first), and the calls handed to \<^verbatim>\<open>wx.CallAfter\<close>
  that the event loop has still to run.
\<close>

datatype ui_call = CallMessageBox string string | CallOnScan

record state =
  listctrl :: "item list"
  adb_log :: "string list list"
  call_after :: "ui_call list"

subsection \<open>Scan\<close>

definition list_cmd :: "string list" where
  "list_cmd = [''shell'', ''pm'', ''list'', ''packages'', ''-3'']"

text \<open>
  The body of the \<^verbatim>\<open>for pkg_line in pkgs\<close> loop, on the rows of the list control. An
  exception leaves the loop with the rows as they are at that point; \<^verbatim>\<open>SetItem\<close> takes a
  \<^verbatim>\<open>str\<close> label and raises \<^verbatim>\<open>TypeError\<close> on anything else.
\<close>

definition scan_pkg :: "env \<Rightarrow> string \<Rightarrow> item list \<Rightarrow> py_error option \<times> item list" where
  "scan_pkg e pkg_line lc =
     (let pkg = removeprefix ''package:'' pkg_line
      in case dict_get (SIG_DB e) pkg of
           Inl err \<Rightarrow> (Some err, lc)
         | Inr detect \<Rightarrow>
             (let status_str = (if truthy detect then gettext e ''Suspicious''
                                else gettext e ''Clean'');
                  (idx, lc1) = InsertItem lc (GetItemCount lc) pkg;
                  lc2 = SetItem lc1 idx 1 status_str
              in case py_or detect (PyStr []) of
                   PyStr label \<Rightarrow>
                     (let lc3 = SetItem lc2 idx 2 label
                      in (None, if truthy detect
                                then SetItemBackgroundColour lc3 idx (255, 230, 230)
                                else lc3))
                 | _ \<Rightarrow> (Some TypeError, lc2)))"

fun scan_loop :: "env \<Rightarrow> string list \<Rightarrow> item list \<Rightarrow> py_error option \<times> item list" where
  "scan_loop e [] lc = (None, lc)"
| "scan_loop e (pkg_line # pkgs) lc =
     (case scan_pkg e pkg_line lc of
        (Some err, lc') \<Rightarrow> (Some err, lc')
      | (None, lc') \<Rightarrow> scan_loop e pkgs lc')"

text \<open>
  \<^verbatim>\<open>_worker_scan\<close>. The result pairs the exception that ended the worker, if any, with
  the state it leaves.
\<close>

definition worker_scan :: "env \<Rightarrow> state \<Rightarrow> py_error option \<times> state" where
  "worker_scan e s =
     (case get_phone e of
        None \<Rightarrow>
          (None, s\<lparr>call_after := call_after s @
                     [CallMessageBox (gettext e ''No device connected.'') (gettext e ''Error'')]\<rparr>)
      | Some ph \<Rightarrow>
          (let s1 = s\<lparr>adb_log := adb_log s @ [list_cmd]\<rparr>
           in case adb e list_cmd of
                Inl err \<Rightarrow> (Some err, s1)
              | Inr r \<Rightarrow>
                  (case scan_loop e (str_split (stdout r)) (listctrl s1) of
                     (res, lc) \<Rightarrow> (res, s1\<lparr>listctrl := lc\<rparr>))))"

text \<open>
  \<^verbatim>\<open>on_scan\<close> empties the list control and starts the worker thread; the model runs the
  worker to its end with no other handler in between.
\<close>

definition on_scan :: "env \<Rightarrow> state \<Rightarrow> py_error option \<times> state" where
  "on_scan e s = worker_scan e (s\<lparr>listctrl := DeleteAllItems (listctrl s)\<rparr>)"

subsection \<open>Removal\<close>

definition uninstall_cmd :: "string \<Rightarrow> string list" where
  "uninstall_cmd p = [''shell'', ''pm'', ''uninstall'', ''--user'', ''0'', p]"

text \<open>The \<^verbatim>\<open>for p in pkgs\<close> loop of \<^verbatim>\<open>_worker_uninstall\<close>, on the log of \<^verbatim>\<open>adb\<close> calls.\<close>

fun uninstall_loop ::
  "env \<Rightarrow> string list \<Rightarrow> string list list \<Rightarrow> py_error option \<times> string list list" where
  "uninstall_loop e [] calls = (None, calls)"
| "uninstall_loop e (p # pkgs) calls =
     (case adb e (uninstall_cmd p) of
        Inl err \<Rightarrow> (Some err, calls @ [uninstall_cmd p])
      | Inr r \<Rightarrow> uninstall_loop e pkgs (calls @ [uninstall_cmd p]))"

definition worker_uninstall :: "env \<Rightarrow> state \<Rightarrow> string list \<Rightarrow> py_error option \<times> state" where
  "worker_uninstall e s pkgs =
     (case uninstall_loop e pkgs (adb_log s) of
        (Some err, calls) \<Rightarrow> (Some err, s\<lparr>adb_log := calls\<rparr>)
      | (None, calls) \<Rightarrow> (None, s\<lparr>adb_log := calls, call_after := call_after s @ [CallOnScan]\<rparr>))"

text \<open>The \<^verbatim>\<open>while idx != -1\<close> loop of \<^verbatim>\<open>on_remove\<close>.\<close>

function selected_loop :: "item list \<Rightarrow> int \<Rightarrow> string list \<Rightarrow> string list" where
  "selected_loop lc idx sel =
     (if idx \<noteq> - 1
      then selected_loop lc (GetNextSelected lc idx) (sel @ [GetItemText lc idx])
      else sel)"
  by pat_completeness auto

termination selected_loop
proof (relation "measure (\<lambda>(lc, idx, sel).
          if idx = - 1 then 0 else 1 + nat (int (length lc) - idx))")
  show "wf (measure (\<lambda>(lc, idx, sel).
          if idx = - 1 then 0 else 1 + nat (int (length lc) - idx)))"
    by simp
next
  fix lc :: "item list" and idx :: int and sel :: "string list"
  assume running: "idx \<noteq> - 1"
  let ?later = "filter (\<lambda>j. idx < int j \<and> selected (lc ! j)) [0..<length lc]"
  have next_item: "GetNextSelected lc idx = - 1 \<or>
      (idx < GetNextSelected lc idx \<and> GetNextSelected lc idx < int (length lc))"
  proof (cases ?later)
    case Nil
    then show ?thesis by (simp add: GetNextSelected_def)
  next
    case (Cons j js)
    then have "j \<in> set ?later" by simp
    then have "idx < int j \<and> j < length lc" by simp
    with Cons show ?thesis by (simp add: GetNextSelected_def)
  qed
  with running
  show "((lc, GetNextSelected lc idx, sel @ [GetItemText lc idx]), (lc, idx, sel))
      \<in> measure (\<lambda>(lc, idx, sel). if idx = - 1 then 0 else 1 + nat (int (length lc) - idx))"
    by auto
qed

definition on_remove :: "env \<Rightarrow> state \<Rightarrow> py_error option \<times> state" where
  "on_remove e s =
     (let sel = selected_loop (listctrl s) (GetFirstSelected (listctrl s)) []
      in if sel = [] then (None, s)
         else
           (let msg = gettext e (''Uninstall the following?'' @ [CHR 0x0A, CHR 0x0A])
                        @ str_join [CHR 0x0A] sel
            in if MessageBox e msg (gettext e ''Confirm'') \<noteq> YES then (None, s)
               else worker_uninstall e s sel))"

subsection \<open>Threads\<close>

text \<open>
  \<^verbatim>\<open>on_scan\<close> and \<^verbatim>\<open>on_remove\<close> start their worker with \<^verbatim>\<open>Thread(target=...).start()\<close> and
  return. A session is the dialog together with the worker threads that were started and
  have not ended, oldest first.
\<close>

datatype thread_target = WorkerScan | WorkerUninstall "string list"

record session =
  dialog :: state
  threads :: "thread_target list"

text \<open>
  \<^verbatim>\<open>on_scan\<close> up to its return: the list control is emptied and a thread on
  \<^verbatim>\<open>_worker_scan\<close> is started, whatever threads are running.
\<close>

definition on_scan_start :: "session \<Rightarrow> session" where
  "on_scan_start u =
     u\<lparr>dialog := (dialog u)\<lparr>listctrl := DeleteAllItems (listctrl (dialog u))\<rparr>,
       threads := threads u @ [WorkerScan]\<rparr>"

text \<open>The oldest thread runs its worker on the dialog and ends.\<close>

definition thread_ends :: "env \<Rightarrow> session \<Rightarrow> session" where
  "thread_ends e u =
     (case threads u of
        [] \<Rightarrow> u
      | WorkerScan # ts \<Rightarrow> u\<lparr>dialog := snd (worker_scan e (dialog u)), threads := ts\<rparr>
      | WorkerUninstall pkgs # ts \<Rightarrow>
          u\<lparr>dialog := snd (worker_uninstall e (dialog u) pkgs), threads := ts\<rparr>)"

section \<open>The device gateway of the specification\<close>

text \<open>
  What a command sent over the device channel comes to: the channel fails, the command
  times out, or the command exits with a status and its output.
\<close>

datatype channel = ChannelFailure | Timeout | Exited int string

text \<open>
  Modelled from the spec: \<^verbatim>\<open>runtime.adb\<close> is imported by the module and its code is not
  among the sources. The specification's gateway operation \<^verbatim>\<open>list_third_party_packages\<close>
  fails with \<^verbatim>\<open>DeviceCommandError\<close> on channel failure, timeout, or non-zero exit, and
  otherwise returns what the package manager printed.
\<close>

fun list_third_party_packages :: "channel \<Rightarrow> py_error + adb_result" where
  "list_third_party_packages ChannelFailure = Inl DeviceCommandError"
| "list_third_party_packages Timeout = Inl DeviceCommandError"
| "list_third_party_packages (Exited rc out) =
     (if rc \<noteq> 0 then Inl DeviceCommandError else Inr \<lparr>stdout = out\<rparr>)"

section \<open>A device, a signature database and a dialog to run the handlers on\<close>

text \<open>
  One tracker and one harmless application are installed; the signature database knows
  the tracker. Uninstalling answers \<^verbatim>\<open>Success\<close>, and the user confirms every dialog.
\<close>

definition example_stdout :: string where
  "example_stdout =
     ''package:com.evil.tracker'' @ [CHR 0x0A] @ ''package:com.safe.app'' @ [CHR 0x0A]"

definition example_env :: env where
  "example_env =
     \<lparr>gettext = (\<lambda>msg. msg),
      get_phone = Some (Phone ''emulator-5554''),
      adb = (\<lambda>args. if args = list_cmd then Inr \<lparr>stdout = example_stdout\<rparr>
                     else Inr \<lparr>stdout = ''Success''\<rparr>),
      MessageBox = (\<lambda>msg caption. YES),
      SIG_DB = PyDict [(''com.evil.tracker'', PyStr ''Tracker X'')]\<rparr>"

definition tracker_row :: item where
  "tracker_row =
     \<lparr>package_col = ''com.evil.tracker'', status_col = ''Suspicious'',
      detection_col = ''Tracker X'', background = Some (255, 230, 230), selected = False\<rparr>"

definition safe_row :: item where
  "safe_row =
     \<lparr>package_col = ''com.safe.app'', status_col = ''Clean'',
      detection_col = [], background = None, selected = False\<rparr>"

definition empty_dialog :: state where
  "empty_dialog = \<lparr>listctrl = [], adb_log = [], call_after = []\<rparr>"

definition scanned_dialog :: state where
  "scanned_dialog = \<lparr>listctrl = [tracker_row, safe_row], adb_log = [list_cmd], call_after = []\<rparr>"

text \<open>
  Variations: a database whose one entry has an empty description; no database entries
  at all; no device connected; a device whose package manager answers an uninstall
  with a failure text; an \<^verbatim>\<open>adb\<close> that raises on every call; and an \<^verbatim>\<open>adb\<close> that is the
  specification's gateway on a command that exits with status 1.
\<close>

definition blank_env :: env where
  "blank_env = example_env\<lparr>SIG_DB := PyDict [(''com.safe.app'', PyStr [])]\<rparr>"

definition no_signatures_env :: env where
  "no_signatures_env = example_env\<lparr>SIG_DB := PyDict []\<rparr>"

definition no_phone_env :: env where
  "no_phone_env = example_env\<lparr>get_phone := None\<rparr>"

definition failing_env :: env where
  "failing_env =
     example_env\<lparr>adb := (\<lambda>args. if args = list_cmd then Inr \<lparr>stdout = example_stdout\<rparr>
                     else Inr \<lparr>stdout = ''Failure [not installed for 0]''\<rparr>)\<rparr>"

definition raising_env :: env where
  "raising_env = example_env\<lparr>adb := (\<lambda>args. Inl DeviceCommandError)\<rparr>"

definition exit_one_env :: env where
  "exit_one_env =
     example_env\<lparr>adb := (\<lambda>args. list_third_party_packages (Exited 1 ''error: closed''))\<rparr>"

definition clean_tracker_row :: item where
  "clean_tracker_row =
     \<lparr>package_col = ''com.evil.tracker'', status_col = ''Clean'',
      detection_col = [], background = None, selected = False\<rparr>"


section \<open>The loop body of the scan\<close>

lemma InsertItem_end:
  "InsertItem lc (GetItemCount lc) label =
     (length lc, lc @ [\<lparr>package_col = label, status_col = [], detection_col = [],
                        background = None, selected = False\<rparr>])"
  by (simp add: InsertItem_def GetItemCount_def)

lemma SetItem_last:
  "SetItem (lc @ [r]) (length lc) column label =
     lc @ [if column = 0 then r\<lparr>package_col := label\<rparr>
           else if column = 1 then r\<lparr>status_col := label\<rparr>
           else if column = 2 then r\<lparr>detection_col := label\<rparr>
           else r]"
  by (simp add: SetItem_def)

lemma SetItemBackgroundColour_last:
  "SetItemBackgroundColour (lc @ [r]) (length lc) colour = lc @ [r\<lparr>background := Some colour\<rparr>]"
  by (simp add: SetItemBackgroundColour_def)

lemma scan_pkg_Inl:
  "dict_get (SIG_DB e) (removeprefix ''package:'' pkg_line) = Inl err \<Longrightarrow>
   scan_pkg e pkg_line lc = (Some err, lc)"
  by (simp add: scan_pkg_def)

lemma scan_pkg_falsy:
  "dict_get (SIG_DB e) (removeprefix ''package:'' pkg_line) = Inr d \<Longrightarrow> \<not> truthy d \<Longrightarrow>
   scan_pkg e pkg_line lc =
     (None, lc @ [\<lparr>package_col = removeprefix ''package:'' pkg_line,
                    status_col = gettext e ''Clean'', detection_col = [],
                    background = None, selected = False\<rparr>])"
  by (simp add: scan_pkg_def py_or_def InsertItem_end SetItem_last)

lemma scan_pkg_str:
  "dict_get (SIG_DB e) (removeprefix ''package:'' pkg_line) = Inr (PyStr d) \<Longrightarrow> d \<noteq> [] \<Longrightarrow>
   scan_pkg e pkg_line lc =
     (None, lc @ [\<lparr>package_col = removeprefix ''package:'' pkg_line,
                    status_col = gettext e ''Suspicious'', detection_col = d,
                    background = Some (255, 230, 230), selected = False\<rparr>])"
  by (simp add: scan_pkg_def py_or_def InsertItem_end SetItem_last SetItemBackgroundColour_last)

lemma scan_pkg_other:
  "dict_get (SIG_DB e) (removeprefix ''package:'' pkg_line) = Inr d \<Longrightarrow> truthy d \<Longrightarrow>
   \<not> is_str d \<Longrightarrow>
   scan_pkg e pkg_line lc =
     (Some TypeError, lc @ [\<lparr>package_col = removeprefix ''package:'' pkg_line,
                    status_col = gettext e ''Suspicious'', detection_col = [],
                    background = None, selected = False\<rparr>])"
  by (cases d) (simp_all add: scan_pkg_def py_or_def InsertItem_end SetItem_last)

lemma scan_pkg_result:
  assumes "scan_pkg e pkg_line lc = (res, lc')"
  obtains
    (raise) err where "dict_get (SIG_DB e) (removeprefix ''package:'' pkg_line) = Inl err"
      and "res = Some err" and "lc' = lc"
  | (clean) d where "dict_get (SIG_DB e) (removeprefix ''package:'' pkg_line) = Inr d"
      and "\<not> truthy d" and "res = None"
      and "lc' = lc @ [\<lparr>package_col = removeprefix ''package:'' pkg_line,
                    status_col = gettext e ''Clean'', detection_col = [],
                    background = None, selected = False\<rparr>]"
  | (suspicious) t where "dict_get (SIG_DB e) (removeprefix ''package:'' pkg_line) = Inr (PyStr t)"
      and "t \<noteq> []" and "res = None"
      and "lc' = lc @ [\<lparr>package_col = removeprefix ''package:'' pkg_line,
                    status_col = gettext e ''Suspicious'', detection_col = t,
                    background = Some (255, 230, 230), selected = False\<rparr>]"
  | (label) d where "dict_get (SIG_DB e) (removeprefix ''package:'' pkg_line) = Inr d"
      and "truthy d" and "\<not> is_str d" and "res = Some TypeError"
      and "lc' = lc @ [\<lparr>package_col = removeprefix ''package:'' pkg_line,
                    status_col = gettext e ''Suspicious'', detection_col = [],
                    background = None, selected = False\<rparr>]"
proof (cases "dict_get (SIG_DB e) (removeprefix ''package:'' pkg_line)")
  case (Inl err)
  with assms raise show ?thesis by (simp add: scan_pkg_Inl)
next
  case (Inr d)
  show ?thesis
  proof (cases "truthy d")
    case False
    with Inr assms clean show ?thesis by (simp add: scan_pkg_falsy)
  next
    case True
    show ?thesis
    proof (cases "is_str d")
      case False
      with Inr True assms label show ?thesis by (simp add: scan_pkg_other)
    next
      case str: True
      then obtain t where "d = PyStr t" by (cases d) simp_all
      with Inr True assms suspicious show ?thesis by (simp add: scan_pkg_str)
    qed
  qed
qed

lemma scan_pkg_same_lookup:
  assumes "dict_get (SIG_DB e1) (removeprefix ''package:'' pkg_line) =
           dict_get (SIG_DB e2) (removeprefix ''package:'' pkg_line)"
    and "gettext e1 = gettext e2"
  shows "scan_pkg e1 pkg_line lc = scan_pkg e2 pkg_line lc"
  unfolding scan_pkg_def Let_def assms by (rule refl)

section \<open>What holds of every row a scan leaves\<close>

lemma scan_loop_invariant:
  assumes step: "\<And>pkg_line lc res lc'. scan_pkg e pkg_line lc = (res, lc') \<Longrightarrow>
                   \<forall>r\<in>set lc. P r \<Longrightarrow> \<forall>r\<in>set lc'. P r"
    and "\<forall>r\<in>set lc. P r"
    and "scan_loop e pkgs lc = (res, lc')"
  shows "\<forall>r\<in>set lc'. P r"
  using assms(2,3)
proof (induction pkgs arbitrary: lc)
  case Nil
  then show ?case by simp
next
  case (Cons pkg_line pkgs)
  obtain res1 lc1 where one: "scan_pkg e pkg_line lc = (res1, lc1)"
    by (cases "scan_pkg e pkg_line lc")
  have inv1: "\<forall>r\<in>set lc1. P r"
    using one Cons.prems(1) by (rule step)
  show ?case
  proof (cases res1)
    case None
    with one Cons.prems(2) have "scan_loop e pkgs lc1 = (res, lc')" by simp
    with inv1 show ?thesis by (rule Cons.IH)
  next
    case (Some err)
    with one Cons.prems(2) have "lc' = lc1" by simp
    with inv1 show ?thesis by simp
  qed
qed

lemma on_scan_invariant:
  assumes step: "\<And>pkg_line lc res lc'. scan_pkg e pkg_line lc = (res, lc') \<Longrightarrow>
                   \<forall>r\<in>set lc. P r \<Longrightarrow> \<forall>r\<in>set lc'. P r"
    and "on_scan e s = (res, s')"
  shows "\<forall>r\<in>set (listctrl s'). P r"
proof (cases "get_phone e")
  case None
  with assms(2) show ?thesis
    by (auto simp: on_scan_def worker_scan_def DeleteAllItems_def)
next
  case (Some ph)
  show ?thesis
  proof (cases "adb e list_cmd")
    case (Inl err)
    with Some assms(2) show ?thesis
      by (auto simp: on_scan_def worker_scan_def DeleteAllItems_def)
  next
    case (Inr out)
    obtain res1 lc1 where loop: "scan_loop e (str_split (stdout out)) [] = (res1, lc1)"
      by (cases "scan_loop e (str_split (stdout out)) []")
    have "\<forall>r\<in>set lc1. P r"
    proof (rule scan_loop_invariant [where P = P, OF _ _ loop])
      show "\<forall>r\<in>set []. P r" by simp
    next
      fix pkg_line lc res lc'
      assume "scan_pkg e pkg_line lc = (res, lc')" and "\<forall>r\<in>set lc. P r"
      then show "\<forall>r\<in>set lc'. P r" by (rule step)
    qed
    moreover from Some Inr loop assms(2) have "listctrl s' = lc1"
      by (auto simp: on_scan_def worker_scan_def DeleteAllItems_def)
    ultimately show ?thesis by simp
  qed
qed

lemma scan_pkg_None:
  assumes "scan_pkg e pkg_line lc = (None, lc')"
  shows "\<exists>r. lc' = lc @ [r] \<and> package_col r = removeprefix ''package:'' pkg_line"
proof (cases "dict_get (SIG_DB e) (removeprefix ''package:'' pkg_line)")
  case (Inl err)
  with assms show ?thesis by (simp add: scan_pkg_Inl)
next
  case (Inr d)
  show ?thesis
  proof (cases "truthy d")
    case False
    with Inr assms show ?thesis by (auto simp: scan_pkg_falsy)
  next
    case True
    show ?thesis
    proof (cases "is_str d")
      case False
      with Inr True assms show ?thesis by (simp add: scan_pkg_other)
    next
      case str: True
      then obtain t where "d = PyStr t" by (cases d) simp_all
      with Inr True assms show ?thesis by (auto simp: scan_pkg_str)
    qed
  qed
qed

lemma scan_loop_None:
  "scan_loop e pkgs lc = (None, lc') \<Longrightarrow>
   map package_col lc' = map package_col lc @ map (removeprefix ''package:'') pkgs"
proof (induction pkgs arbitrary: lc)
  case Nil
  then show ?case by simp
next
  case (Cons pkg_line pkgs)
  obtain res1 lc1 where one: "scan_pkg e pkg_line lc = (res1, lc1)"
    by (cases "scan_pkg e pkg_line lc")
  with Cons.prems have "res1 = None" by (cases res1) simp_all
  with one Cons.prems have rest: "scan_loop e pkgs lc1 = (None, lc')" by simp
  from one \<open>res1 = None\<close> obtain r where "lc1 = lc @ [r]"
      and "package_col r = removeprefix ''package:'' pkg_line"
    using scan_pkg_None by blast
  with Cons.IH [OF rest] show ?case by simp
qed

section \<open>The example scan\<close>

lemma example_split:
  "str_split example_stdout = [''package:com.evil.tracker'', ''package:com.safe.app'']"
  by (simp add: str_split_def example_stdout_def isspace_def)

lemma example_scan:
  "on_scan example_env s =
     (None, s\<lparr>listctrl := [tracker_row, safe_row], adb_log := adb_log s @ [list_cmd]\<rparr>)"
  by (simp add: on_scan_def worker_scan_def example_env_def DeleteAllItems_def example_split
      scan_pkg_def removeprefix_def InsertItem_def GetItemCount_def SetItem_def
      SetItemBackgroundColour_def py_or_def tracker_row_def safe_row_def)

lemma blank_scan:
  "on_scan blank_env s =
     (None, s\<lparr>listctrl := [clean_tracker_row, safe_row], adb_log := adb_log s @ [list_cmd]\<rparr>)"
  by (simp add: blank_env_def on_scan_def worker_scan_def example_env_def DeleteAllItems_def
      example_split scan_pkg_def removeprefix_def InsertItem_def GetItemCount_def SetItem_def
      py_or_def clean_tracker_row_def safe_row_def)

lemma no_signatures_scan:
  "on_scan no_signatures_env s =
     (None, s\<lparr>listctrl := [clean_tracker_row, safe_row], adb_log := adb_log s @ [list_cmd]\<rparr>)"
  by (simp add: no_signatures_env_def on_scan_def worker_scan_def example_env_def
      DeleteAllItems_def example_split scan_pkg_def removeprefix_def InsertItem_def
      GetItemCount_def SetItem_def py_or_def clean_tracker_row_def safe_row_def)
section \<open>Lookups, uninstall calls and the selection\<close>

lemma map_of_without_key:
  "map_of (filter (\<lambda>kv. fst kv \<noteq> k) kvs) k' = (if k' = k then None else map_of kvs k')"
  by (induction kvs) auto

lemma scan_pkg_without_blank:
  assumes "SIG_DB e = PyDict kvs" and "map_of kvs k = Some (PyStr [])"
  shows "scan_pkg (e\<lparr>SIG_DB := PyDict (filter (\<lambda>kv. fst kv \<noteq> k) kvs)\<rparr>) pkg_line lc =
         scan_pkg e pkg_line lc"
proof (cases "removeprefix ''package:'' pkg_line = k")
  case True
  with assms show ?thesis
    by (simp add: scan_pkg_falsy [where d = "PyStr []"] scan_pkg_falsy [where d = PyNone]
        map_of_without_key)
next
  case False
  with assms show ?thesis
    by (intro scan_pkg_same_lookup) (simp_all add: map_of_without_key)
qed

lemma scan_loop_without_blank:
  assumes "SIG_DB e = PyDict kvs" and "map_of kvs k = Some (PyStr [])"
  shows "scan_loop (e\<lparr>SIG_DB := PyDict (filter (\<lambda>kv. fst kv \<noteq> k) kvs)\<rparr>) pkgs lc =
         scan_loop e pkgs lc"
  by (induction pkgs arbitrary: lc)
    (simp_all add: scan_pkg_without_blank [OF assms] split: prod.split option.split)

lemma uninstall_loop_returns:
  "\<forall>p\<in>set pkgs. \<exists>r. adb e (uninstall_cmd p) = Inr r \<Longrightarrow>
   uninstall_loop e pkgs calls = (None, calls @ map uninstall_cmd pkgs)"
  by (induction pkgs arbitrary: calls) auto

text \<open>The selection loop of \<^verbatim>\<open>on_remove\<close> collects the first column of the selected rows, in order.\<close>

declare selected_loop.simps [simp del]

lemma filter_from:
  "filter (\<lambda>j. int n - 1 < int j \<and> P j) [0..<m] = filter P [n..<m]"
  by (induction m) auto

lemma GetNextSelected_filter:
  "GetNextSelected lc (int n - 1) =
     (case filter (\<lambda>j. selected (lc ! j)) [n..<length lc] of [] \<Rightarrow> - 1 | j # _ \<Rightarrow> int j)"
  by (simp add: GetNextSelected_def filter_from)

lemma filter_upt_Cons:
  "filter P [n..<m] = j # js \<Longrightarrow> n \<le> j \<and> j < m \<and> P j \<and> js = filter P [Suc j..<m]"
proof (induction "m - n" arbitrary: n)
  case 0
  then show ?case by simp
next
  case (Suc d)
  then have "n < m" by simp
  then have upt: "[n..<m] = n # [Suc n..<m]" by (rule upt_conv_Cons)
  show ?case
  proof (cases "P n")
    case True
    with upt Suc.prems \<open>n < m\<close> show ?thesis by auto
  next
    case False
    with upt Suc.prems have rest: "filter P [Suc n..<m] = j # js" by simp
    from Suc.hyps(2) have "d = m - Suc n" by simp
    from Suc.hyps(1) [OF this rest] show ?thesis by simp
  qed
qed

lemma filter_as_nths:
  "filter P xs = map (nth xs) (filter (\<lambda>j. P (xs ! j)) [0..<length xs])"
proof -
  have "filter P (map (nth xs) [0..<length xs]) =
      map (nth xs) (filter (\<lambda>j. P (xs ! j)) [0..<length xs])"
    by (simp only: filter_map comp_def)
  then show ?thesis by (simp only: map_nth)
qed

lemma selected_loop_from:
  assumes "idx = - 1 \<or> (0 \<le> idx \<and> idx < int (length lc) \<and> selected (lc ! nat idx))"
  shows "selected_loop lc idx sel =
           sel @ (if idx = - 1 then []
                  else map (\<lambda>j. package_col (lc ! j))
                         (nat idx # filter (\<lambda>j. selected (lc ! j)) [Suc (nat idx)..<length lc]))"
  using assms
proof (induction lc idx sel rule: selected_loop.induct)
  case (1 lc idx sel)
  show ?case
  proof (cases "idx = - 1")
    case True
    then show ?thesis by (simp add: selected_loop.simps)
  next
    case False
    with "1.prems" have valid: "0 \<le> idx" "idx < int (length lc)" "selected (lc ! nat idx)"
      by auto
    then have idx: "int (Suc (nat idx)) - 1 = idx" by simp
    let ?later = "filter (\<lambda>j. selected (lc ! j)) [Suc (nat idx)..<length lc]"
    have nxt: "GetNextSelected lc idx = (case ?later of [] \<Rightarrow> - 1 | j # _ \<Rightarrow> int j)"
      using GetNextSelected_filter [of lc "Suc (nat idx)"] by (simp only: idx)
    have label: "GetItemText lc idx = package_col (lc ! nat idx)"
      using valid by (simp add: GetItemText_def)
    have unfold: "selected_loop lc idx sel =
        selected_loop lc (GetNextSelected lc idx) (sel @ [GetItemText lc idx])"
      using False by (simp add: selected_loop.simps [of lc idx])
    show ?thesis
    proof (cases ?later)
      case Nil
      with nxt have "GetNextSelected lc idx = - 1" by simp
      with unfold have "selected_loop lc idx sel = sel @ [GetItemText lc idx]"
        by (simp add: selected_loop.simps [of lc "- 1"])
      with False Nil label show ?thesis by simp
    next
      case (Cons j js)
      with nxt have next_j: "GetNextSelected lc idx = int j" by simp
      from filter_upt_Cons [OF Cons] have j: "j < length lc" "selected (lc ! j)"
          and js: "js = filter (\<lambda>j. selected (lc ! j)) [Suc j..<length lc]"
        by simp_all
      have ok: "GetNextSelected lc idx = - 1 \<or>
          (0 \<le> GetNextSelected lc idx \<and> GetNextSelected lc idx < int (length lc) \<and>
           selected (lc ! nat (GetNextSelected lc idx)))"
        using next_j j by simp
      have "selected_loop lc (GetNextSelected lc idx) (sel @ [GetItemText lc idx]) =
          (sel @ [GetItemText lc idx]) @
            map (\<lambda>j. package_col (lc ! j)) (j # filter (\<lambda>j. selected (lc ! j)) [Suc j..<length lc])"
        using "1.IH" [OF False ok] next_j by simp
      with unfold False label Cons js show ?thesis by simp
    qed
  qed
qed

lemma selected_loop_selection:
  "selected_loop lc (GetFirstSelected lc) [] = map package_col (filter selected lc)"
proof -
  let ?all = "filter (\<lambda>j. selected (lc ! j)) [0..<length lc]"
  have rows: "map package_col (filter selected lc) = map (\<lambda>j. package_col (lc ! j)) ?all"
    using filter_as_nths [of selected lc] by (simp add: comp_def)
  have first: "GetFirstSelected lc = (case ?all of [] \<Rightarrow> - 1 | j # _ \<Rightarrow> int j)"
    using GetNextSelected_filter [of lc 0] by (simp add: GetFirstSelected_def)
  show ?thesis
  proof (cases ?all)
    case Nil
    with first rows show ?thesis by (simp add: selected_loop.simps)
  next
    case (Cons j js)
    with first have first_j: "GetFirstSelected lc = int j" by simp
    from filter_upt_Cons [OF Cons] have j: "j < length lc" "selected (lc ! j)"
        and js: "js = filter (\<lambda>j. selected (lc ! j)) [Suc j..<length lc]"
      by simp_all
    have "selected_loop lc (int j) [] =
        map (\<lambda>j. package_col (lc ! j)) (j # filter (\<lambda>j. selected (lc ! j)) [Suc j..<length lc])"
      using selected_loop_from [of "int j" lc "[]"] j by simp
    with first_j rows Cons js show ?thesis by simp
  qed
qed

lemma on_remove_selection:
  "on_remove e s =
     (let sel = map package_col (filter selected (listctrl s))
      in if sel = [] then (None, s)
         else if MessageBox e
                   (gettext e (''Uninstall the following?'' @ [CHR 0x0A, CHR 0x0A]) @
                      str_join [CHR 0x0A] sel)
                   (gettext e ''Confirm'') \<noteq> YES
              then (None, s)
              else worker_uninstall e s sel)"
  by (simp add: on_remove_def selected_loop_selection Let_def)

lemma no_selection:
  assumes "\<forall>r\<in>set lc. \<not> selected r"
  shows "GetFirstSelected lc = - 1"
proof -
  have "filter (\<lambda>j. - 1 < int j \<and> selected (lc ! j)) [0..<length lc] = []"
    using assms by (auto simp: filter_empty_conv)
  then show ?thesis by (simp add: GetFirstSelected_def GetNextSelected_def)
qed

lemma scan_result_order:
  assumes "get_phone e = Some ph"
    and "adb e list_cmd = Inr out"
    and "on_scan e s = (None, s')"
  shows "map package_col (listctrl s') =
           map (removeprefix ''package:'') (str_split (stdout out))"
proof -
  obtain res1 lc1 where loop: "scan_loop e (str_split (stdout out)) [] = (res1, lc1)"
    by (cases "scan_loop e (str_split (stdout out)) []")
  with assms have "res1 = None" and "listctrl s' = lc1"
    by (auto simp: on_scan_def worker_scan_def DeleteAllItems_def)
  with loop show ?thesis
    using scan_loop_None [of e "str_split (stdout out)" "[]" lc1] by simp
qed

lemma split_from_word:
  "\<forall>c\<in>set w. \<not> isspace c \<Longrightarrow> split_from cur (w @ rest) = split_from (cur @ w) rest"
  by (induction w arbitrary: cur) simp_all

lemma split_from_lines:
  assumes "\<forall>w\<in>set ws. w \<noteq> [] \<and> (\<forall>c\<in>set w. \<not> isspace c)"
  shows "split_from [] (concat (map (\<lambda>w. w @ [CHR 0x0A]) ws)) = ws"
  using assms
proof (induction ws)
  case Nil
  show ?case by simp
next
  case (Cons w ws)
  then have w: "w \<noteq> []" "\<forall>c\<in>set w. \<not> isspace c" by simp_all
  have nl: "isspace (CHR 0x0A)" by (simp add: isspace_def)
  have "split_from [] (w @ CHR 0x0A # concat (map (\<lambda>w. w @ [CHR 0x0A]) ws)) =
        split_from w (CHR 0x0A # concat (map (\<lambda>w. w @ [CHR 0x0A]) ws))"
    using split_from_word [OF w(2), of "[]"] by simp
  also have "\<dots> = w # split_from [] (concat (map (\<lambda>w. w @ [CHR 0x0A]) ws))"
    using w(1) nl by simp
  finally show ?case using Cons by simp
qed

lemma marker_no_space: "\<forall>c\<in>set ''package:''. \<not> isspace c"
  by (simp add: isspace_def)

lemma removeprefix_marker: "removeprefix ''package:'' (''package:'' @ i) = i"
  by (simp add: removeprefix_def)

lemma on_scan_start_then_end:
  "threads u = [] \<Longrightarrow>
   thread_ends e (on_scan_start u) = u\<lparr>dialog := snd (on_scan e (dialog u))\<rparr>"
  by (simp add: thread_ends_def on_scan_start_def on_scan_def)

section \<open>Status and description of a row\<close>

text \<open>
  Claim C1 says that a row is Suspicious exactly when its package is a key of the
  signature database. The scan tests the looked-up description for truth, not the key for
  membership: with the entry \<^verbatim>\<open>"com.safe.app": ""\<close> in the database, the row of
  \<^verbatim>\<open>com.safe.app\<close> is Clean although its package is a key.
\<close>

theorem status_by_key_counterexample:
  "SIG_DB blank_env = PyDict [(''com.safe.app'', PyStr [])] \<and>
   on_scan blank_env empty_dialog =
     (None, empty_dialog\<lparr>listctrl := [clean_tracker_row, safe_row], adb_log := [list_cmd]\<rparr>) \<and>
   package_col safe_row \<in> fst ` set [(''com.safe.app'', PyStr [])] \<and>
   status_col safe_row \<noteq> gettext blank_env ''Suspicious''"
  by (simp add: blank_scan) (simp add: blank_env_def example_env_def safe_row_def empty_dialog_def)

text \<open>
  Claim C1, amended. For a signature database that is a dict with \<^verbatim>\<open>str\<close> values, and
  translations that tell Suspicious from Clean, every row a scan leaves in the list
  control is Suspicious exactly when the database maps its package to a non-empty
  description, and its detection text is non-empty exactly when it is Suspicious.
\<close>

theorem scan_status_description:
  assumes db: "SIG_DB e = PyDict kvs"
    and strs: "\<forall>v\<in>snd ` set kvs. is_str v"
    and tr: "gettext e ''Suspicious'' \<noteq> gettext e ''Clean''"
    and scan: "on_scan e s = (res, s')"
    and row: "r \<in> set (listctrl s')"
  shows "(status_col r = gettext e ''Suspicious'' \<longleftrightarrow>
            (\<exists>d. map_of kvs (package_col r) = Some (PyStr d) \<and> d \<noteq> [])) \<and>
         (detection_col r \<noteq> [] \<longleftrightarrow> status_col r = gettext e ''Suspicious'')"
proof -
  let ?P = "\<lambda>r. (status_col r = gettext e ''Suspicious'' \<longleftrightarrow>
            (\<exists>d. map_of kvs (package_col r) = Some (PyStr d) \<and> d \<noteq> [])) \<and>
         (detection_col r \<noteq> [] \<longleftrightarrow> status_col r = gettext e ''Suspicious'')"
  have "\<forall>r\<in>set (listctrl s'). ?P r"
  proof (rule on_scan_invariant [where P = ?P, OF _ scan])
    fix pkg_line lc res1 lc'
    assume one: "scan_pkg e pkg_line lc = (res1, lc')" and inv: "\<forall>r\<in>set lc. ?P r"
    let ?pkg = "removeprefix ''package:'' pkg_line"
    have found: "dict_get (SIG_DB e) ?pkg =
        Inr (case map_of kvs ?pkg of None \<Rightarrow> PyNone | Some v \<Rightarrow> v)"
      by (simp add: db)
    have str: "is_str v" if "map_of kvs ?pkg = Some v" for v
      using that strs by (force dest: map_of_SomeD)
    from one show "\<forall>r\<in>set lc'. ?P r"
    proof (cases rule: scan_pkg_result)
      case (raise err)
      with inv show ?thesis by simp
    next
      case (clean d)
      with found tr inv show ?thesis
        by (auto split: option.splits)
    next
      case (suspicious t)
      with found tr inv show ?thesis
        by (auto split: option.splits)
    next
      case (label d)
      with found str have False
        by (auto split: option.splits)
      then show ?thesis ..
    qed
  qed
  with row show ?thesis by blast
qed

theorem scan_status_description_witness:
  "SIG_DB example_env = PyDict [(''com.evil.tracker'', PyStr ''Tracker X'')] \<and>
   is_str (PyStr ''Tracker X'') \<and>
   gettext example_env ''Suspicious'' \<noteq> gettext example_env ''Clean'' \<and>
   on_scan example_env empty_dialog = (None, scanned_dialog) \<and>
   tracker_row \<in> set (listctrl scanned_dialog) \<and>
   status_col tracker_row = gettext example_env ''Suspicious'' \<and>
   map_of [(''com.evil.tracker'', PyStr ''Tracker X'')] (package_col tracker_row) =
     Some (PyStr ''Tracker X'') \<and>
   detection_col tracker_row \<noteq> []"
proof -
  have db: "SIG_DB example_env = PyDict [(''com.evil.tracker'', PyStr ''Tracker X'')]"
    by (simp add: example_env_def)
  have strs: "\<forall>v\<in>snd ` set [(''com.evil.tracker'', PyStr ''Tracker X'')]. is_str v"
    by simp
  have tr: "gettext example_env ''Suspicious'' \<noteq> gettext example_env ''Clean''"
    by (simp add: example_env_def)
  have scan: "on_scan example_env empty_dialog = (None, scanned_dialog)"
    by (simp add: example_scan empty_dialog_def scanned_dialog_def)
  have row: "tracker_row \<in> set (listctrl scanned_dialog)"
    by (simp add: scanned_dialog_def)
  have found: "map_of [(''com.evil.tracker'', PyStr ''Tracker X'')] (package_col tracker_row) =
      Some (PyStr ''Tracker X'')"
    by (simp add: tracker_row_def)
  from scan_status_description [OF db strs tr scan row] db tr scan row found
  show ?thesis by simp
qed

section \<open>Loading the signature database\<close>

text \<open>
  Claim C2 says that a malformed database file degrades to an empty mapping.
  \<^verbatim>\<open>load_signature_db\<close> handles nothing that \<^verbatim>\<open>json.load\<close> raises, and returns what
  \<^verbatim>\<open>json.load\<close> returns: malformed JSON ends the load with \<^verbatim>\<open>JSONDecodeError\<close>, and a
  document that is a list is returned as the list, on which the scan raises
  \<^verbatim>\<open>AttributeError\<close> at the first package.
\<close>

theorem malformed_database_counterexample:
  "load_signature_db (Present (Inl JSONDecodeError)) = Inl JSONDecodeError \<and>
   load_signature_db (Present (Inr (PyList []))) = Inr (PyList []) \<and>
   on_scan (example_env\<lparr>SIG_DB := PyList []\<rparr>) empty_dialog =
     (Some AttributeError, empty_dialog\<lparr>adb_log := [list_cmd]\<rparr>)"
  by (simp add: on_scan_def worker_scan_def example_env_def DeleteAllItems_def example_split
      scan_pkg_def empty_dialog_def)

text \<open>
  Claim C2, amended. When the database file is absent, loading returns the empty dict,
  and every row of a scan with that database is Clean with an empty detection text.
  When opening or decoding the file raises, loading raises the same.
\<close>

theorem absent_database_all_clean:
  "load_signature_db Absent = Inr (PyDict []) \<and>
   load_signature_db (Present (Inl err)) = Inl err \<and>
   (load_signature_db Absent = Inr (SIG_DB e) \<longrightarrow>
      (\<forall>r\<in>set (listctrl (snd (on_scan e s))).
         status_col r = gettext e ''Clean'' \<and> detection_col r = []))"
proof (intro conjI impI)
  assume "load_signature_db Absent = Inr (SIG_DB e)"
  then have db: "SIG_DB e = PyDict []" by simp
  let ?P = "\<lambda>r. status_col r = gettext e ''Clean'' \<and> detection_col r = []"
  obtain res s' where scan: "on_scan e s = (res, s')"
    by (cases "on_scan e s")
  have "\<forall>r\<in>set (listctrl s'). ?P r"
  proof (rule on_scan_invariant [where P = ?P, OF _ scan])
    fix pkg_line lc res1 lc'
    assume one: "scan_pkg e pkg_line lc = (res1, lc')" and inv: "\<forall>r\<in>set lc. ?P r"
    from one show "\<forall>r\<in>set lc'. ?P r"
      by (cases rule: scan_pkg_result) (use db inv in auto)
  qed
  with scan show "\<forall>r\<in>set (listctrl (snd (on_scan e s))). ?P r" by simp
qed simp_all

theorem absent_database_all_clean_witness:
  "load_signature_db Absent = Inr (SIG_DB no_signatures_env) \<and>
   on_scan no_signatures_env empty_dialog =
     (None, empty_dialog\<lparr>listctrl := [clean_tracker_row, safe_row], adb_log := [list_cmd]\<rparr>) \<and>
   status_col clean_tracker_row = gettext no_signatures_env ''Clean'' \<and>
   detection_col clean_tracker_row = [] \<and>
   status_col safe_row = gettext no_signatures_env ''Clean'' \<and>
   detection_col safe_row = []"
proof -
  have loaded: "load_signature_db Absent = Inr (SIG_DB no_signatures_env)"
    by (simp add: no_signatures_env_def)
  have scan: "on_scan no_signatures_env empty_dialog =
      (None, empty_dialog\<lparr>listctrl := [clean_tracker_row, safe_row], adb_log := [list_cmd]\<rparr>)"
    by (simp add: no_signatures_scan empty_dialog_def)
  from absent_database_all_clean [of JSONDecodeError no_signatures_env empty_dialog]
    loaded scan
  show ?thesis by simp
qed

section \<open>Removal\<close>

text \<open>
  Claim C3 says that removal returns one outcome per package. \<^verbatim>\<open>_worker_uninstall\<close> drops
  what every \<^verbatim>\<open>adb\<close> call returns: a package manager that answers \<^verbatim>\<open>Success\<close> and one
  that answers with a failure text leave the same result, so the result holds no
  outcome. And an \<^verbatim>\<open>adb\<close> call that raises ends the loop: the packages after it are
  not attempted.
\<close>

theorem no_removal_outcome_counterexample:
  "adb example_env (uninstall_cmd ''com.ghost.app'') = Inr \<lparr>stdout = ''Success''\<rparr> \<and>
   adb failing_env (uninstall_cmd ''com.ghost.app'') = Inr \<lparr>stdout = ''Failure [not installed for 0]''\<rparr> \<and>
   worker_uninstall example_env empty_dialog [''com.ghost.app''] =
     worker_uninstall failing_env empty_dialog [''com.ghost.app''] \<and>
   worker_uninstall raising_env empty_dialog [''com.evil.tracker'', ''com.safe.app''] =
     (Some DeviceCommandError, empty_dialog\<lparr>adb_log := [uninstall_cmd ''com.evil.tracker'']\<rparr>)"
  by (simp add: worker_uninstall_def example_env_def failing_env_def raising_env_def
      empty_dialog_def uninstall_cmd_def list_cmd_def)

text \<open>
  Claim C3, amended. When every uninstall call returns, whatever it returns, removal
  issues one uninstall call per package, in the order given, records no outcome, and
  hands \<^verbatim>\<open>on_scan\<close> to the event loop.
\<close>

theorem uninstall_calls_in_order:
  assumes "\<forall>p\<in>set pkgs. \<exists>r. adb e (uninstall_cmd p) = Inr r"
  shows "worker_uninstall e s pkgs =
           (None, s\<lparr>adb_log := adb_log s @ map uninstall_cmd pkgs,
                    call_after := call_after s @ [CallOnScan]\<rparr>)"
  using assms by (simp add: worker_uninstall_def uninstall_loop_returns)

theorem uninstall_calls_in_order_witness:
  "adb failing_env (uninstall_cmd ''com.evil.tracker'') =
     Inr \<lparr>stdout = ''Failure [not installed for 0]''\<rparr> \<and>
   adb failing_env (uninstall_cmd ''com.ghost.app'') =
     Inr \<lparr>stdout = ''Failure [not installed for 0]''\<rparr> \<and>
   worker_uninstall failing_env scanned_dialog [''com.evil.tracker'', ''com.ghost.app''] =
     (None, scanned_dialog\<lparr>adb_log := [list_cmd, uninstall_cmd ''com.evil.tracker'',
                                          uninstall_cmd ''com.ghost.app''],
                             call_after := [CallOnScan]\<rparr>)"
proof -
  have first: "adb failing_env (uninstall_cmd ''com.evil.tracker'') =
      Inr \<lparr>stdout = ''Failure [not installed for 0]''\<rparr>"
    by (simp add: failing_env_def uninstall_cmd_def list_cmd_def)
  have second: "adb failing_env (uninstall_cmd ''com.ghost.app'') =
      Inr \<lparr>stdout = ''Failure [not installed for 0]''\<rparr>"
    by (simp add: failing_env_def uninstall_cmd_def list_cmd_def)
  from first second
  have returns: "\<forall>p\<in>set [''com.evil.tracker'', ''com.ghost.app''].
      \<exists>r. adb failing_env (uninstall_cmd p) = Inr r"
    by simp
  from uninstall_calls_in_order [OF returns, of scanned_dialog] first second show ?thesis
    by (simp add: scanned_dialog_def)
qed

section \<open>No device\<close>

text \<open>
  Claim C4. When \<^verbatim>\<open>get_phone\<close> finds no device, \<^verbatim>\<open>_worker_scan\<close> hands the
  \<^verbatim>\<open>No device connected.\<close> message box to the event loop and returns: it issues no
  \<^verbatim>\<open>adb\<close> call and adds no row.
\<close>

theorem no_device_no_enumeration:
  assumes "get_phone e = None"
  shows "worker_scan e s =
           (None, s\<lparr>call_after := call_after s @
              [CallMessageBox (gettext e ''No device connected.'') (gettext e ''Error'')]\<rparr>) \<and>
         adb_log (snd (worker_scan e s)) = adb_log s \<and>
         listctrl (snd (worker_scan e s)) = listctrl s"
  using assms by (simp add: worker_scan_def)

theorem no_device_no_enumeration_witness:
  "get_phone no_phone_env = None \<and>
   worker_scan no_phone_env scanned_dialog =
     (None, scanned_dialog\<lparr>call_after := [CallMessageBox ''No device connected.'' ''Error'']\<rparr>) \<and>
   adb_log (snd (worker_scan no_phone_env scanned_dialog)) = [list_cmd] \<and>
   listctrl (snd (worker_scan no_phone_env scanned_dialog)) = [tracker_row, safe_row]"
proof -
  have none: "get_phone no_phone_env = None"
    by (simp add: no_phone_env_def)
  from no_device_no_enumeration [OF none, of scanned_dialog] none show ?thesis
    by (simp add: no_phone_env_def example_env_def scanned_dialog_def)
qed

section \<open>The list control after a failed scan\<close>

text \<open>
  Claim C5 says that a failed scan leaves the rows of the scan before it in place.
  \<^verbatim>\<open>on_scan\<close> deletes all rows before the worker starts, so after a scan that fails for
  want of a device the two rows of the scan before are gone.
\<close>

theorem failed_scan_clears_list_counterexample:
  "listctrl scanned_dialog = [tracker_row, safe_row] \<and>
   on_scan no_phone_env scanned_dialog =
     (None, scanned_dialog\<lparr>listctrl := [],
        call_after := [CallMessageBox ''No device connected.'' ''Error'']\<rparr>) \<and>
   listctrl (snd (on_scan no_phone_env scanned_dialog)) \<noteq> listctrl scanned_dialog"
  by (simp add: on_scan_def worker_scan_def no_phone_env_def example_env_def scanned_dialog_def
      DeleteAllItems_def)

text \<open>
  Claim C5, amended. After a scan that fails because no device is connected, or because
  the package listing raises, the list control is empty: the rows of the scan before were
  deleted when the scan was requested, and none is added.
\<close>

theorem failed_scan_leaves_empty_list:
  assumes "get_phone e = None \<or> (\<exists>err. adb e list_cmd = Inl err)"
  shows "listctrl (snd (on_scan e s)) = []"
  using assms
  by (auto simp: on_scan_def worker_scan_def DeleteAllItems_def split: option.split)

theorem failed_scan_leaves_empty_list_witness:
  "listctrl scanned_dialog = [tracker_row, safe_row] \<and>
   adb raising_env list_cmd = Inl DeviceCommandError \<and>
   listctrl (snd (on_scan raising_env scanned_dialog)) = []"
proof -
  have raises: "adb raising_env list_cmd = Inl DeviceCommandError"
    by (simp add: raising_env_def)
  then have fails: "get_phone raising_env = None \<or> (\<exists>err. adb raising_env list_cmd = Inl err)"
    by simp
  from failed_scan_leaves_empty_list [OF fails, of scanned_dialog] raises show ?thesis
    by (simp add: scanned_dialog_def)
qed

section \<open>Failure of the package listing\<close>

text \<open>
  Claim C6. With a device connected and \<^verbatim>\<open>adb\<close> behaving on the listing command as the
  specification's gateway does, a channel failure, a timeout or a non-zero exit ends the
  scan with \<^verbatim>\<open>DeviceCommandError\<close>: \<^verbatim>\<open>_worker_scan\<close> has no handler, so the error leaves it
  before the loop, and the list control, emptied by \<^verbatim>\<open>on_scan\<close>, gets no row.
\<close>

theorem enumeration_failure_fails_scan:
  assumes phone: "get_phone e = Some ph"
    and gateway: "adb e list_cmd = list_third_party_packages c"
    and fails: "c = ChannelFailure \<or> c = Timeout \<or> (\<exists>rc out. c = Exited rc out \<and> rc \<noteq> 0)"
  shows "on_scan e s =
           (Some DeviceCommandError, s\<lparr>listctrl := [], adb_log := adb_log s @ [list_cmd]\<rparr>)"
proof -
  from fails have "list_third_party_packages c = Inl DeviceCommandError"
    by auto
  with phone gateway show ?thesis
    by (simp add: on_scan_def worker_scan_def DeleteAllItems_def)
qed

theorem enumeration_failure_fails_scan_witness:
  "get_phone exit_one_env = Some (Phone ''emulator-5554'') \<and>
   adb exit_one_env list_cmd = list_third_party_packages (Exited 1 ''error: closed'') \<and>
   (1::int) \<noteq> 0 \<and>
   on_scan exit_one_env scanned_dialog =
     (Some DeviceCommandError,
      scanned_dialog\<lparr>listctrl := [], adb_log := [list_cmd, list_cmd]\<rparr>)"
proof -
  have phone: "get_phone exit_one_env = Some (Phone ''emulator-5554'')"
    by (simp add: exit_one_env_def example_env_def)
  have gateway: "adb exit_one_env list_cmd = list_third_party_packages (Exited 1 ''error: closed'')"
    by (simp add: exit_one_env_def)
  have fails: "Exited 1 ''error: closed'' = ChannelFailure \<or>
      Exited 1 ''error: closed'' = Timeout \<or>
      (\<exists>rc out. Exited 1 ''error: closed'' = Exited rc out \<and> rc \<noteq> 0)"
    by simp
  from enumeration_failure_fails_scan [OF phone gateway fails, of scanned_dialog]
    phone gateway
  show ?thesis by (simp add: scanned_dialog_def)
qed

section \<open>Order and content of a scan result\<close>

text \<open>
  Claim C7. When a device is connected, the package listing prints one line
  \<^verbatim>\<open>package:<identifier>\<close> per package, the identifiers holding no whitespace, and the scan
  ends without an exception, the list control holds exactly one row per identifier, in
  the order of the listing, and the first column of each row is the identifier without
  the \<^verbatim>\<open>package:\<close> marker.
\<close>

theorem listing_gives_identifiers:
  assumes phone: "get_phone e = Some ph"
    and listing: "adb e list_cmd = Inr out"
    and lines: "stdout out = concat (map (\<lambda>i. ''package:'' @ i @ [CHR 0x0A]) ids)"
    and ids: "\<forall>i\<in>set ids. \<forall>c\<in>set i.
                of_char c \<notin> {9, 10, 11, 12, 13, 28, 29, 30, 31, 32, 133, 160 :: nat}"
    and scan: "on_scan e s = (None, s')"
  shows "map package_col (listctrl s') = ids"
proof -
  let ?ws = "map (\<lambda>i. ''package:'' @ i) ids"
  have words: "\<forall>w\<in>set ?ws. w \<noteq> [] \<and> (\<forall>c\<in>set w. \<not> isspace c)"
    using ids marker_no_space by (auto simp: isspace_def)
  have "stdout out = concat (map (\<lambda>w. w @ [CHR 0x0A]) ?ws)"
    by (simp add: lines comp_def)
  then have "str_split (stdout out) = ?ws"
    using split_from_lines [OF words] by (simp add: str_split_def)
  with scan_result_order [OF phone listing scan]
  have "map package_col (listctrl s') = map (removeprefix ''package:'') ?ws"
    by simp
  also have "\<dots> = ids"
    by (simp add: comp_def removeprefix_def)
  finally show ?thesis .
qed

theorem listing_gives_identifiers_witness:
  "get_phone example_env = Some (Phone ''emulator-5554'') \<and>
   adb example_env list_cmd = Inr \<lparr>stdout = example_stdout\<rparr> \<and>
   stdout \<lparr>stdout = example_stdout\<rparr> =
     concat (map (\<lambda>i. ''package:'' @ i @ [CHR 0x0A]) [''com.evil.tracker'', ''com.safe.app'']) \<and>
   on_scan example_env empty_dialog = (None, scanned_dialog) \<and>
   map package_col (listctrl scanned_dialog) = [''com.evil.tracker'', ''com.safe.app'']"
proof -
  have phone: "get_phone example_env = Some (Phone ''emulator-5554'')"
    by (simp add: example_env_def)
  have listing: "adb example_env list_cmd = Inr \<lparr>stdout = example_stdout\<rparr>"
    by (simp add: example_env_def)
  have lines: "stdout \<lparr>stdout = example_stdout\<rparr> =
     concat (map (\<lambda>i. ''package:'' @ i @ [CHR 0x0A]) [''com.evil.tracker'', ''com.safe.app''])"
    by (simp add: example_stdout_def)
  have ids: "\<forall>i\<in>set [''com.evil.tracker'', ''com.safe.app'']. \<forall>c\<in>set i.
                of_char c \<notin> {9, 10, 11, 12, 13, 28, 29, 30, 31, 32, 133, 160 :: nat}"
    by simp
  have scan: "on_scan example_env empty_dialog = (None, scanned_dialog)"
    by (simp add: example_scan empty_dialog_def scanned_dialog_def)
  from listing_gives_identifiers [OF phone listing lines ids scan] phone listing lines scan
  show ?thesis by simp
qed

section \<open>Scans requested while a scan is running\<close>




section \<open>Removal with nothing selected\<close>

text \<open>
  Claim C8. When no row is selected, \<^verbatim>\<open>on_remove\<close> returns at once: the state is as it
  was, so no \<^verbatim>\<open>adb\<close> call has been issued, and no dialog has been shown.
\<close>

theorem empty_selection_no_removal:
  assumes "\<forall>r\<in>set (listctrl s). \<not> selected r"
  shows "on_remove e s = (None, s)"
  using no_selection [OF assms] by (simp add: on_remove_def selected_loop.simps)

theorem empty_selection_no_removal_witness:
  "listctrl scanned_dialog = [tracker_row, safe_row] \<and>
   \<not> selected tracker_row \<and> \<not> selected safe_row \<and>
   on_remove example_env scanned_dialog = (None, scanned_dialog) \<and>
   adb_log (snd (on_remove example_env scanned_dialog)) = adb_log scanned_dialog"
proof -
  have none: "\<forall>r\<in>set (listctrl scanned_dialog). \<not> selected r"
    by (simp add: scanned_dialog_def tracker_row_def safe_row_def)
  from empty_selection_no_removal [OF none, of example_env] none show ?thesis
    by (simp add: scanned_dialog_def)
qed

section \<open>An entry with an empty description\<close>

text \<open>
  Claim C10. When the signature database maps a package to the empty string, a scan
  gives the same result as a scan with that entry taken out of the database, and every
  row of that package is Clean, with an empty detection text and no highlight.
\<close>

theorem blank_description_is_clean:
  assumes db: "SIG_DB e = PyDict kvs" and blank: "map_of kvs k = Some (PyStr [])"
  shows "on_scan (e\<lparr>SIG_DB := PyDict (filter (\<lambda>kv. fst kv \<noteq> k) kvs)\<rparr>) s = on_scan e s \<and>
         (\<forall>r\<in>set (listctrl (snd (on_scan e s))).
            package_col r = k \<longrightarrow>
              status_col r = gettext e ''Clean'' \<and> detection_col r = [] \<and> background r = None)"
proof
  show "on_scan (e\<lparr>SIG_DB := PyDict (filter (\<lambda>kv. fst kv \<noteq> k) kvs)\<rparr>) s = on_scan e s"
    by (simp add: on_scan_def worker_scan_def scan_loop_without_blank [OF assms] Let_def
        split: option.split sum.split)
next
  let ?P = "\<lambda>r. package_col r = k \<longrightarrow>
              status_col r = gettext e ''Clean'' \<and> detection_col r = [] \<and> background r = None"
  obtain res s' where scan: "on_scan e s = (res, s')"
    by (cases "on_scan e s")
  have "\<forall>r\<in>set (listctrl s'). ?P r"
  proof (rule on_scan_invariant [where P = ?P, OF _ scan])
    fix pkg_line lc res1 lc'
    assume one: "scan_pkg e pkg_line lc = (res1, lc')" and inv: "\<forall>r\<in>set lc. ?P r"
    from one show "\<forall>r\<in>set lc'. ?P r"
    proof (cases rule: scan_pkg_result)
      case (raise err)
      with inv show ?thesis by simp
    next
      case (clean d)
      with inv show ?thesis by simp
    next
      case (suspicious t)
      with db blank inv show ?thesis by auto
    next
      case (label d)
      with db blank inv show ?thesis by auto
    qed
  qed
  with scan show "\<forall>r\<in>set (listctrl (snd (on_scan e s))). ?P r" by simp
qed

theorem blank_description_is_clean_witness:
  "SIG_DB blank_env = PyDict [(''com.safe.app'', PyStr [])] \<and>
   map_of [(''com.safe.app'', PyStr [])] ''com.safe.app'' = Some (PyStr []) \<and>
   on_scan (blank_env\<lparr>SIG_DB := PyDict []\<rparr>) empty_dialog = on_scan blank_env empty_dialog \<and>
   safe_row \<in> set (listctrl (snd (on_scan blank_env empty_dialog))) \<and>
   package_col safe_row = ''com.safe.app'' \<and>
   status_col safe_row = gettext blank_env ''Clean'' \<and>
   detection_col safe_row = [] \<and> background safe_row = None"
proof -
  have db: "SIG_DB blank_env = PyDict [(''com.safe.app'', PyStr [])]"
    by (simp add: blank_env_def)
  have blank: "map_of [(''com.safe.app'', PyStr [])] ''com.safe.app'' = Some (PyStr [])"
    by simp
  have row: "safe_row \<in> set (listctrl (snd (on_scan blank_env empty_dialog)))"
    by (simp add: blank_scan)
  have pkg: "package_col safe_row = ''com.safe.app''"
    by (simp add: safe_row_def)
  from blank_description_is_clean [OF db blank, of empty_dialog] db row pkg
  show ?thesis by simp
qed

end
